theory Spec2Isabelle
  imports Main "HOL-Library.Sublist"
begin

section \<open>Route authorization gate (\<open>authConfig.callbacks.authorized\<close>)\<close>

text \<open>
  JavaScript's \<open>s.startsWith(searchString)\<close> with the default position 0: the first
  \<open>searchString.length\<close> code units of \<open>s\<close> are \<open>searchString\<close>.
\<close>

definition startsWith :: "string \<Rightarrow> string \<Rightarrow> bool" where
  "startsWith s searchString = (take (length searchString) s = searchString)"

text \<open>
  The \<open>auth\<close> argument is the session or \<open>null\<close>; a session carries a user or none.
  \<open>!!auth?.user\<close> is true exactly when both are present.
\<close>

datatype session = Session (user: "string option")

definition isLoggedIn :: "session option \<Rightarrow> bool" where
  "isLoggedIn auth = (case auth of None \<Rightarrow> False | Some s \<Rightarrow> user s \<noteq> None)"

definition isOnChat :: "string \<Rightarrow> bool" where
  "isOnChat pathname = startsWith pathname ''/''"

definition isOnRegister :: "string \<Rightarrow> bool" where
  "isOnRegister pathname = startsWith pathname ''/register''"

definition isOnLogin :: "string \<Rightarrow> bool" where
  "isOnLogin pathname = startsWith pathname ''/login''"

text \<open>
  What the callback hands back to the framework: \<open>Response.redirect(new URL('/', nextUrl))\<close>,
  \<open>true\<close> (the request goes through) or \<open>false\<close> (the framework sends the visitor to the
  sign-in page).
\<close>

datatype decision = Redirect string | Allow | Deny

text \<open>The six \<open>return\<close> statements of the callback, named by their line in the file.\<close>

datatype exit_site = Line23 | Line28 | Line33 | Line34 | Line38 | Line41

fun returned :: "exit_site \<Rightarrow> decision" where
  "returned Line23 = Redirect ''/''"
| "returned Line28 = Allow"
| "returned Line33 = Allow"
| "returned Line34 = Deny"
| "returned Line38 = Redirect ''/''"
| "returned Line41 = Allow"

definition authorized_exit :: "session option \<Rightarrow> string \<Rightarrow> exit_site" where
  "authorized_exit auth pathname =
     (if isLoggedIn auth \<and> (isOnLogin pathname \<or> isOnRegister pathname) then Line23
      else if isOnRegister pathname \<or> isOnLogin pathname then Line28
      else if isOnChat pathname then (if isLoggedIn auth then Line33 else Line34)
      else if isLoggedIn auth then Line38
      else Line41)"

definition authorized :: "session option \<Rightarrow> string \<Rightarrow> decision" where
  "authorized auth pathname = returned (authorized_exit auth pathname)"

abbreviation redirect_home :: decision where
  "redirect_home \<equiv> Redirect ''/''"

text \<open>
  Following the specification's words: the three rules in order, with ``path is login or
  register'' read as the path being \<open>/login\<close> or \<open>/register\<close>.
\<close>

definition spec_rules :: "bool \<Rightarrow> string \<Rightarrow> decision" where
  "spec_rules authenticated path =
     (if authenticated \<and> (path = ''/login'' \<or> path = ''/register'') then redirect_home
      else if path = ''/login'' \<or> path = ''/register'' then Allow
      else if authenticated then Allow
      else Deny)"

section \<open>Chat input component (\<open>PureMultimodalInput\<close>)\<close>

subsection \<open>Values that cross the network\<close>

text \<open>
  A parsed JSON document. A JavaScript value read out of one is a \<open>json option\<close>, with
  \<open>None\<close> for \<open>undefined\<close>.
\<close>

datatype json = JNull | JBool bool | JNum int | JStr string
  | JArr "json list" | JObj "(string \<times> json) list"

type_synonym jsvalue = "json option"

text \<open>
  Reading a named property off a parsed document that is not \<open>null\<close>. \<open>JSON.parse\<close> keeps
  the last of several equal keys. The component only reads \<open>url\<close>, \<open>pathname\<close>,
  \<open>contentType\<close> and \<open>error\<close>, which no boolean, number, string or array has.
\<close>

fun property :: "json \<Rightarrow> string \<Rightarrow> jsvalue" where
  "property (JObj kvs) k = map_of (rev kvs) k"
| "property _ k = None"

datatype attachment = Attachment (url: jsvalue) (name: jsvalue) (contentType: jsvalue)

datatype jsfile = File (file_name: string) (file_bytes: string)

text \<open>
  What \<open>fetch\<close> resolves to: the \<open>ok\<close> flag and what \<open>response.json()\<close> gives, \<open>None\<close> when
  the body is not JSON and that promise rejects. A \<open>fetch\<close> that rejects is \<open>None\<close> at the
  level above.
\<close>

datatype response = Response (ok: bool) (body_json: "json option")

datatype exn = FetchRejected | JsonRejected | DestructureNull

definition upload_failed :: jsvalue where
  "upload_failed = Some (JStr ''Failed to upload file, please try again!'')"

definition please_wait :: jsvalue where
  "please_wait = Some (JStr ''Please wait for the model to finish its response!'')"

text \<open>
  The body of the \<open>try\<close> block of \<open>uploadFile\<close>, after \<open>fetch\<close> was called: \<open>Inl\<close> is a
  throw, \<open>Inr\<close> the value returned (\<open>None\<close> for falling off the end) with the arguments of
  the \<open>toast.error\<close> calls made on the way.
\<close>

definition uploadFile_try :: "response option \<Rightarrow> exn + (attachment option \<times> jsvalue list)" where
  "uploadFile_try fetched =
     (case fetched of
        None \<Rightarrow> Inl FetchRejected
      | Some response \<Rightarrow>
          if ok response then
            (case body_json response of
               None \<Rightarrow> Inl JsonRejected
             | Some data \<Rightarrow>
                 if data = JNull then Inl DestructureNull
                 else Inr (Some (Attachment (property data ''url'')
                                            (property data ''pathname'')
                                            (property data ''contentType'')), []))
          else
            (case body_json response of
               None \<Rightarrow> Inl JsonRejected
             | Some data \<Rightarrow>
                 if data = JNull then Inl DestructureNull
                 else Inr (None, [property data ''error''])))"

text \<open>\<open>uploadFile\<close> with its \<open>catch\<close>: every throw becomes the fixed notification.\<close>

definition uploadFile :: "response option \<Rightarrow> attachment option \<times> jsvalue list" where
  "uploadFile fetched =
     (case uploadFile_try fetched of
        Inl e \<Rightarrow> (None, [upload_failed])
      | Inr r \<Rightarrow> r)"

subsection \<open>Component state and the calls it makes\<close>

datatype css_height = Unset | Auto | Px nat

record textarea =
  tvalue :: string
  style_height :: css_height
  has_focus :: bool

text \<open>Every call the component makes on its surroundings, in the order made.\<close>

datatype effect =
    ReplaceState string
  | HandleSubmit "attachment list"
  | SetAttachments "attachment list"
  | SetInput string
  | SetLocalStorageInput string
  | SetUploadQueue "string list"
  | SetStyleHeight css_height
  | Focus
  | ToastError jsvalue
  | Fetch string string jsfile
  | PreventDefault

text \<open>
  \<open>submitForm\<close> is a \<open>useCallback\<close> closure: it reads \<open>chatId\<close>, \<open>attachments\<close> and \<open>width\<close> as
  they were in the render that built it. (It closes over \<open>handleSubmit\<close> and the setters as
  well; those are calls on the surroundings, and the textarea is reached through the ref.)
\<close>

record submitForm_closure =
  closed_chatId :: string
  closed_attachments :: "attachment list"
  closed_width :: "nat option"

text \<open>
  The props and hooks of one component instance. \<open>storage\<close> is the browser's
  \<open>localStorage\<close>, \<open>scrollHeightOf\<close> the browser's layout: the \<open>scrollHeight\<close> of the textarea
  for a content and an inline height. \<open>calls\<close> is the trace of effects.
  \<open>submitForm_built\<close> is the \<open>submitForm\<close> of the component's last render, which the key
  handler of that render calls; \<open>sendButton_submitForm\<close> is the \<open>submitForm\<close> prop with which
  the memoised \<open>SendButton\<close> last rendered.
\<close>

record state =
  chatId :: string
  input :: string
  isLoading :: bool
  attachments :: "attachment list"
  uploadQueue :: "string list"
  storage :: "string \<rightharpoonup> string"
  textareaRef :: "textarea option"
  width :: "nat option"
  scrollHeightOf :: "string \<Rightarrow> css_height \<Rightarrow> nat"
  calls :: "effect list"
  submitForm_built :: submitForm_closure
  sendButton_submitForm :: submitForm_closure

definition emit :: "effect \<Rightarrow> state \<Rightarrow> state" where
  "emit e st = st\<lparr>calls := calls st @ [e]\<rparr>"

definition setAttachments :: "(attachment list \<Rightarrow> attachment list) \<Rightarrow> state \<Rightarrow> state" where
  "setAttachments f st =
     emit (SetAttachments (f (attachments st))) (st\<lparr>attachments := f (attachments st)\<rparr>)"

definition setInput :: "string \<Rightarrow> state \<Rightarrow> state" where
  "setInput v st = emit (SetInput v) (st\<lparr>input := v\<rparr>)"

definition setUploadQueue :: "string list \<Rightarrow> state \<Rightarrow> state" where
  "setUploadQueue q st = emit (SetUploadQueue q) (st\<lparr>uploadQueue := q\<rparr>)"

text \<open>\<open>useLocalStorage('input', '')\<close>: the stored value, or the initial value when none is stored.\<close>

definition localStorageInput :: "state \<Rightarrow> string" where
  "localStorageInput st = (case storage st ''input'' of None \<Rightarrow> [] | Some v \<Rightarrow> v)"

definition setLocalStorageInput :: "string \<Rightarrow> state \<Rightarrow> state" where
  "setLocalStorageInput v st =
     emit (SetLocalStorageInput v) (st\<lparr>storage := (storage st)(''input'' \<mapsto> v)\<rparr>)"

subsection \<open>Textarea sizing\<close>

definition set_style_height :: "css_height \<Rightarrow> state \<Rightarrow> state" where
  "set_style_height h st =
     emit (SetStyleHeight h)
       (st\<lparr>textareaRef := map_option (\<lambda>ta. ta\<lparr>style_height := h\<rparr>) (textareaRef st)\<rparr>)"

definition scrollHeight :: "state \<Rightarrow> nat" where
  "scrollHeight st =
     (case textareaRef st of
        None \<Rightarrow> 0
      | Some ta \<Rightarrow> scrollHeightOf st (tvalue ta) (style_height ta))"

definition adjustHeight :: "state \<Rightarrow> state" where
  "adjustHeight st =
     (if textareaRef st \<noteq> None then
        (let st1 = set_style_height Auto st
         in set_style_height (Px (scrollHeight st1 + 2)) st1)
      else st)"

definition resetHeight :: "state \<Rightarrow> state" where
  "resetHeight st =
     (if textareaRef st \<noteq> None then
        set_style_height (Px 98) (set_style_height Auto st)
      else st)"

definition focus :: "state \<Rightarrow> state" where
  "focus st =
     (case textareaRef st of
        None \<Rightarrow> st
      | Some ta \<Rightarrow> emit Focus (st\<lparr>textareaRef := Some (ta\<lparr>has_focus := True\<rparr>)\<rparr>))"

subsection \<open>Draft persistence\<close>

text \<open>JavaScript's \<open>a || b\<close> on strings: the empty string is the only falsy one.\<close>

definition js_or :: "string \<Rightarrow> string \<Rightarrow> string" where
  "js_or a b = (if a = [] then b else a)"

text \<open>
  The three \<open>useEffect\<close> bodies as they run after the first commit, in declaration order.
  All three close over the values of the first render: the \<open>input\<close> prop and the value
  \<open>useLocalStorage\<close> read.
\<close>

definition mount_effects :: "state \<Rightarrow> state" where
  "mount_effects st =
     (let input0 = input st;
          ls0 = localStorageInput st;
          st1 = (if textareaRef st \<noteq> None then adjustHeight st else st);
          st2 = (case textareaRef st1 of
                   None \<Rightarrow> st1
                 | Some ta \<Rightarrow>
                     (let domValue = tvalue ta;
                          finalValue = js_or (js_or domValue ls0) []
                      in adjustHeight (setInput finalValue st1)))
      in setLocalStorageInput input0 st2)"

text \<open>
  \<open>useCallback\<close> with the dependencies \<open>attachments\<close>, \<open>width\<close> and \<open>chatId\<close> (and the stable
  functions): a render yields the closure over the current values.
\<close>

definition useCallback_submitForm :: "state \<Rightarrow> submitForm_closure" where
  "useCallback_submitForm st =
     \<lparr>closed_chatId = chatId st, closed_attachments = attachments st, closed_width = width st\<rparr>"

text \<open>
  The comparator given to \<open>memo\<close> for \<open>SendButton\<close>: \<open>True\<close> keeps the button as it was
  rendered. It looks at the length of \<open>uploadQueue\<close> and at \<open>input\<close>, not at \<open>submitForm\<close>.
\<close>

definition sendButton_propsAreEqual :: "state \<Rightarrow> state \<Rightarrow> bool" where
  "sendButton_propsAreEqual prevProps nextProps =
     (if length (uploadQueue prevProps) \<noteq> length (uploadQueue nextProps) then False
      else if input prevProps \<noteq> input nextProps then False
      else True)"

text \<open>
  The commit that follows a state change; \<open>before\<close> is the state of the render before. The
  component body runs again: \<open>submitForm\<close> is rebuilt and the textarea gets the handlers of
  this render; the controlled textarea shows the \<open>input\<close> prop; \<open>SendButton\<close> takes the new
  \<open>submitForm\<close> when it is mounted afresh (the stop button stood in its place before) or when
  its comparator lets it render, and keeps the one it has otherwise; and the effect with
  dependency \<open>input\<close> runs when \<open>input\<close> differs from the render before. Every event of this
  model changes a hook state or a prop that the comparator of \<open>MultimodalInput\<close> watches, or
  changes nothing that \<open>submitForm\<close> reads.
\<close>

definition rerender :: "state \<Rightarrow> state \<Rightarrow> state" where
  "rerender before st =
     (let st1 = st\<lparr>textareaRef := map_option (\<lambda>ta. ta\<lparr>tvalue := input st\<rparr>) (textareaRef st),
                   submitForm_built := useCallback_submitForm st,
                   sendButton_submitForm :=
                     (if \<not> isLoading st \<and> (isLoading before \<or> \<not> sendButton_propsAreEqual before st)
                      then useCallback_submitForm st
                      else sendButton_submitForm st)\<rparr>
      in if input st1 \<noteq> input before then setLocalStorageInput (input st1) st1 else st1)"

text \<open>An event: its handler runs, then the component renders.\<close>

definition after_event :: "(state \<Rightarrow> state) \<Rightarrow> state \<Rightarrow> state" where
  "after_event handler st = rerender st (handler st)"

definition mount :: "state \<Rightarrow> state" where
  "mount st = rerender st (mount_effects st)"

text \<open>
  A fresh instance at its first render: the parent's \<open>input\<close>, what the textarea element
  already shows, and the browser around it.
\<close>

definition first_render ::
  "string \<Rightarrow> string \<Rightarrow> string \<Rightarrow> (string \<rightharpoonup> string) \<Rightarrow> nat option
     \<Rightarrow> (string \<Rightarrow> css_height \<Rightarrow> nat) \<Rightarrow> state" where
  "first_render cid input0 domValue store w layout =
     \<lparr>chatId = cid, input = input0, isLoading = False, attachments = [], uploadQueue = [],
      storage = store,
      textareaRef = Some \<lparr>tvalue = domValue, style_height = Unset, has_focus = True\<rparr>,
      width = w, scrollHeightOf = layout, calls = [],
      submitForm_built = \<lparr>closed_chatId = cid, closed_attachments = [], closed_width = w\<rparr>,
      sendButton_submitForm = \<lparr>closed_chatId = cid, closed_attachments = [], closed_width = w\<rparr>\<rparr>"

text \<open>
  \<open>handleInput\<close>: the browser has already put the typed text into the element when the
  change event fires.
\<close>

definition handleInput :: "string \<Rightarrow> state \<Rightarrow> state" where
  "handleInput v st =
     (let st1 = st\<lparr>textareaRef := map_option (\<lambda>ta. ta\<lparr>tvalue := v\<rparr>) (textareaRef st)\<rparr>
      in adjustHeight (setInput v st1))"

definition onChange :: "string \<Rightarrow> state \<Rightarrow> state" where
  "onChange v st = rerender st (handleInput v st)"

subsection \<open>Submission\<close>

text \<open>
  The body of \<open>submitForm\<close>, run from the closure \<open>c\<close> on the state at the time of the call.
\<close>

definition submitForm :: "submitForm_closure \<Rightarrow> state \<Rightarrow> state" where
  "submitForm c st =
     (let st1 = emit (ReplaceState (''/chat/'' @ closed_chatId c)) st;
          st2 = emit (HandleSubmit (closed_attachments c)) st1;
          st3 = setAttachments (\<lambda>_. []) st2;
          st4 = setLocalStorageInput [] st3;
          st5 = resetHeight st4
      in if (case closed_width c of None \<Rightarrow> False | Some w \<Rightarrow> w \<noteq> 0 \<and> w > 768)
         then focus st5 else st5)"

datatype key_event = KeyEvent (key: string) (shiftKey: bool)

definition onKeyDown :: "key_event \<Rightarrow> state \<Rightarrow> state" where
  "onKeyDown event st =
     (if key event = ''Enter'' \<and> \<not> shiftKey event then
        (let st1 = emit PreventDefault st
         in if isLoading st1 then emit (ToastError please_wait) st1
            else submitForm (submitForm_built st1) st1)
      else st)"

text \<open>
  The send button exists only while no response is streaming (the stop button takes its
  place), and a disabled button receives no click. Its \<open>disabled\<close> flag reads \<open>input\<close> and
  the length of \<open>uploadQueue\<close>, the very props whose change makes it render, so the flag is
  that of the current state. Its click runs the \<open>submitForm\<close> it last rendered with.
\<close>

definition sendButton_rendered :: "state \<Rightarrow> bool" where
  "sendButton_rendered st = (\<not> isLoading st)"

definition sendButton_disabled :: "state \<Rightarrow> bool" where
  "sendButton_disabled st = (length (input st) = 0 \<or> length (uploadQueue st) > 0)"

definition sendButton_onClick :: "state \<Rightarrow> state" where
  "sendButton_onClick st = submitForm (sendButton_submitForm st) (emit PreventDefault st)"

definition click_send :: "state \<Rightarrow> state" where
  "click_send st =
     (if sendButton_rendered st \<and> \<not> sendButton_disabled st then sendButton_onClick st
      else st)"

fun is_HandleSubmit :: "effect \<Rightarrow> bool" where
  "is_HandleSubmit (HandleSubmit a) = True"
| "is_HandleSubmit _ = False"


text \<open>The calls made between two states of one run.\<close>

definition new_calls :: "state \<Rightarrow> state \<Rightarrow> effect list" where
  "new_calls before after = drop (length (calls before)) (calls after)"

definition submitted :: "state \<Rightarrow> state \<Rightarrow> bool" where
  "submitted before after = list_ex is_HandleSubmit (new_calls before after)"

text \<open>The window is resized: \<open>useWindowSize\<close> hands the component the new width.\<close>

definition resize :: "nat option \<Rightarrow> state \<Rightarrow> state" where
  "resize w st = st\<lparr>width := w\<rparr>"

text \<open>The three conditions under which the specification blocks submission.\<close>

definition blocked :: "state \<Rightarrow> bool" where
  "blocked st = (isLoading st \<or> input st = [] \<or> uploadQueue st \<noteq> [])"

subsection \<open>File uploads\<close>

text \<open>
  \<open>handleFileChange\<close> up to its \<open>await\<close>: the queue takes the names, and each call of
  \<open>uploadFile\<close> runs as far as its \<open>fetch\<close>, in input order.
\<close>

definition files_of :: "jsfile list option \<Rightarrow> jsfile list" where
  "files_of target_files = (case target_files of None \<Rightarrow> [] | Some fs \<Rightarrow> fs)"

definition handleFileChange_start :: "jsfile list option \<Rightarrow> state \<Rightarrow> state" where
  "handleFileChange_start target_files st =
     (let files = files_of target_files;
          st1 = setUploadQueue (map file_name files) st
      in foldl (\<lambda>s f. emit (Fetch ''/api/files/upload'' ''POST'' f) s) st1 files)"

text \<open>
  One upload finishing: the rest of \<open>uploadFile\<close> runs on what its \<open>fetch\<close> gave, its
  notifications are shown, and its promise settles into slot \<open>i\<close> of \<open>Promise.all\<close>.
\<close>

definition complete_upload ::
  "response option list \<Rightarrow> attachment option option list \<times> state \<Rightarrow> nat
     \<Rightarrow> attachment option option list \<times> state" where
  "complete_upload fetched acc i =
     (let slots = fst acc; st = snd acc
      in if i < length fetched then
           (let r = uploadFile (fetched ! i)
            in (slots[i := Some (fst r)], foldl (\<lambda>s m. emit (ToastError m) s) st (snd r)))
         else acc)"

text \<open>
  \<open>handleFileChange\<close> from its \<open>await\<close> on. \<open>fetched\<close> is what each file's \<open>fetch\<close> gave, in
  input order; \<open>order\<close> is the order in which the uploads finish. \<open>Promise.all\<close> resumes the
  handler once every slot is filled. No upload promise rejects, so the \<open>catch\<close> has nothing
  to catch; the \<open>finally\<close> clears the queue.
\<close>

definition handleFileChange_settle :: "response option list \<Rightarrow> nat list \<Rightarrow> state \<Rightarrow> state" where
  "handleFileChange_settle fetched order st =
     (let done = foldl (complete_upload fetched) (replicate (length fetched) None, st) order;
          slots = fst done; st1 = snd done
      in if list_all (\<lambda>s. s \<noteq> None) slots then
           (let uploadedAttachments = map the slots;
                successfullyUploadedAttachments =
                  map the (filter (\<lambda>attachment. attachment \<noteq> None) uploadedAttachments);
                st2 = setAttachments
                        (\<lambda>currentAttachments. currentAttachments @ successfullyUploadedAttachments) st1
            in setUploadQueue [] st2)
         else st1)"

definition handleFileChange ::
  "jsfile list \<Rightarrow> response option list \<Rightarrow> nat list \<Rightarrow> state \<Rightarrow> state" where
  "handleFileChange files fetched order st =
     handleFileChange_settle fetched order (handleFileChange_start (Some files) st)"

subsection \<open>Attachment previews\<close>



subsection \<open>Notions used to state the upload properties\<close>

text \<open>
  Following the specification's words: the successful uploads of a batch, in input order.
  An upload that returned no attachment contributes nothing.
\<close>

definition uploaded_in_input_order :: "response option list \<Rightarrow> attachment list" where
  "uploaded_in_input_order fetched =
     concat (map (\<lambda>r. case fst (uploadFile r) of None \<Rightarrow> [] | Some a \<Rightarrow> [a]) fetched)"

text \<open>The notifications one finishing upload shows.\<close>

definition toasts_of :: "response option list \<Rightarrow> nat \<Rightarrow> effect list" where
  "toasts_of fetched i =
     (if i < length fetched then map ToastError (snd (uploadFile (fetched ! i))) else [])"

fun is_Fetch :: "effect \<Rightarrow> bool" where
  "is_Fetch (Fetch u m f) = True"
| "is_Fetch _ = False"

section \<open>Properties of the authorization gate\<close>

lemma startsWith_prefix: "startsWith s p = prefix p s"
  by (auto simp: startsWith_def prefix_def) (metis append_eq_conv_conj)

lemma startsWith_append: "startsWith (p @ rest) p"
  by (simp add: startsWith_def)

lemma login_is_chat: "isOnLogin pathname \<Longrightarrow> isOnChat pathname"
  unfolding isOnLogin_def isOnChat_def startsWith_prefix
  by (auto simp: prefix_def)

lemma register_is_chat: "isOnRegister pathname \<Longrightarrow> isOnChat pathname"
  unfolding isOnRegister_def isOnChat_def startsWith_prefix
  by (auto simp: prefix_def)

lemma isLoggedIn_cases:
  "isLoggedIn None = False"
  "isLoggedIn (Some (Session None)) = False"
  "isLoggedIn (Some (Session (Some u))) = True"
  by (simp_all add: isLoggedIn_def)

lemma home_not_login_register: "\<not> isOnLogin ''/''" "\<not> isOnRegister ''/''" "isOnChat ''/''"
  by (simp_all add: isOnLogin_def isOnRegister_def isOnChat_def startsWith_def)

lemma login_path: "isOnLogin ''/login''" "isOnChat ''/login''"
  by (simp_all add: isOnLogin_def isOnChat_def startsWith_def)

lemma register_path: "isOnRegister ''/register''" "isOnChat ''/register''"
  by (simp_all add: isOnRegister_def isOnChat_def startsWith_def)

text \<open>
  The two returns after rule 3 are live code for a string that does not begin with a slash;
  only the shape of a URL pathname keeps the callback away from them.
\<close>

lemma tail_returns_without_slash:
  "authorized_exit None ''login'' = Line41"
  "authorized_exit (Some (Session (Some u))) [] = Line38"
  by (simp_all add: authorized_exit_def isLoggedIn_def isOnLogin_def isOnRegister_def
        isOnChat_def startsWith_def)

text \<open>
  C2 as stated fails. Read as written, ``path is login or register'' means the path is
  \<open>/login\<close> or \<open>/register\<close>, and \<open>/loginfoo\<close> is any other path: the rules deny it to a
  visitor who is not logged in and allow it to one who is. The callback recognises the two
  pages by prefix, so it allows the first and redirects the second.
\<close>

theorem authorized_exact_paths_counterexample:
  "startsWith ''/loginfoo'' ''/''
   \<and> authorized None ''/loginfoo'' = Allow
   \<and> spec_rules (isLoggedIn None) ''/loginfoo'' = Deny
   \<and> authorized (Some (Session (Some ''ann''))) ''/loginfoo'' = redirect_home
   \<and> spec_rules (isLoggedIn (Some (Session (Some ''ann'')))) ''/loginfoo'' = Allow"
  by (simp add: authorized_def authorized_exit_def isOnLogin_def isOnRegister_def isOnChat_def
        startsWith_def spec_rules_def isLoggedIn_cases)

text \<open>
  C2, amended. For every request path (a URL pathname, which begins with a slash) and every
  authentication state, the gate decides by three rules in order, where a path counts as
  login or register when it begins with \<open>/login\<close> or \<open>/register\<close>: logged in and on such a
  path gives a redirect home; on such a path otherwise gives allow; any other path gives
  allow when logged in and deny when not. On \<open>/login\<close>, on \<open>/register\<close> and on every path
  that does not begin with either, this is the decision of the rules read with the exact
  paths. In particular \<open>/login\<close> gives redirect home when logged in and allow when not, and
  \<open>/\<close> gives allow when logged in and deny when not.
\<close>

theorem authorized_prefix_rules:
  assumes "prefix ''/'' pathname"
  shows "authorized auth pathname =
           (if isLoggedIn auth \<and> (prefix ''/login'' pathname \<or> prefix ''/register'' pathname)
            then redirect_home
            else if prefix ''/login'' pathname \<or> prefix ''/register'' pathname then Allow
            else if isLoggedIn auth then Allow
            else Deny)
         \<and> (if pathname = ''/login'' \<or> pathname = ''/register''
               \<or> \<not> (prefix ''/login'' pathname \<or> prefix ''/register'' pathname)
             then authorized auth pathname = spec_rules (isLoggedIn auth) pathname
             else authorized auth pathname = (if isLoggedIn auth then redirect_home else Allow))
         \<and> authorized auth ''/login'' = (if isLoggedIn auth then redirect_home else Allow)
         \<and> authorized auth ''/register'' = (if isLoggedIn auth then redirect_home else Allow)
         \<and> authorized auth ''/'' = (if isLoggedIn auth then Allow else Deny)"
proof -
  have chat: "isOnChat pathname"
    using assms by (simp add: isOnChat_def startsWith_prefix)
  have pages: "isOnLogin pathname = prefix ''/login'' pathname"
    "isOnRegister pathname = prefix ''/register'' pathname"
    by (simp_all add: isOnLogin_def isOnRegister_def startsWith_prefix)
  have general: "authorized auth pathname =
           (if isLoggedIn auth \<and> (prefix ''/login'' pathname \<or> prefix ''/register'' pathname)
            then redirect_home
            else if prefix ''/login'' pathname \<or> prefix ''/register'' pathname then Allow
            else if isLoggedIn auth then Allow
            else Deny)"
    using chat by (simp add: authorized_def authorized_exit_def pages)
  have exact: "pathname = ''/login'' \<or> pathname = ''/register'' \<Longrightarrow>
      prefix ''/login'' pathname \<or> prefix ''/register'' pathname"
    by auto
  have agree: "(if pathname = ''/login'' \<or> pathname = ''/register''
               \<or> \<not> (prefix ''/login'' pathname \<or> prefix ''/register'' pathname)
             then authorized auth pathname = spec_rules (isLoggedIn auth) pathname
             else authorized auth pathname = (if isLoggedIn auth then redirect_home else Allow))"
    unfolding general spec_rules_def using exact by auto
  have login: "authorized auth ''/login'' = (if isLoggedIn auth then redirect_home else Allow)"
    using login_path by (simp add: authorized_def authorized_exit_def)
  have register: "authorized auth ''/register'' = (if isLoggedIn auth then redirect_home else Allow)"
    using register_path by (simp add: authorized_def authorized_exit_def)
  have home: "authorized auth ''/'' = (if isLoggedIn auth then Allow else Deny)"
    using home_not_login_register by (simp add: authorized_def authorized_exit_def)
  from general agree login register home show ?thesis by simp
qed

theorem authorized_prefix_rules_witness:
  "prefix ''/'' ''/chat/42''
   \<and> authorized None ''/chat/42'' = Deny
   \<and> authorized (Some (Session None)) ''/chat/42'' = Deny
   \<and> authorized (Some (Session (Some ''ann''))) ''/chat/42'' = Allow
   \<and> authorized None ''/login'' = Allow
   \<and> authorized (Some (Session (Some ''ann''))) ''/login'' = redirect_home
   \<and> authorized None ''/'' = Deny
   \<and> authorized (Some (Session (Some ''ann''))) ''/'' = Allow
   \<and> authorized None ''/chat/42'' = spec_rules False ''/chat/42''
   \<and> authorized (Some (Session (Some ''ann''))) ''/chat/42'' = spec_rules True ''/chat/42''"
proof -
  have h: "prefix ''/'' ''/chat/42''"
    by simp
  have no_page: "\<not> prefix ''/login'' ''/chat/42''" "\<not> prefix ''/register'' ''/chat/42''"
    by simp_all
  show ?thesis
    using h no_page
      authorized_prefix_rules [OF h, of None]
      authorized_prefix_rules [OF h, of "Some (Session None)"]
      authorized_prefix_rules [OF h, of "Some (Session (Some ''ann''))"]
    by (simp add: isLoggedIn_cases spec_rules_def)
qed

text \<open>
  C9. The login and register pages are recognised by prefix: every path that begins with
  \<open>/login\<close> or \<open>/register\<close>, such as \<open>/register-admin\<close> or \<open>/loginfoo\<close>, is allowed to a
  visitor who is not logged in and redirected home for one who is.
\<close>

theorem authorized_prefix_recognition:
  assumes "startsWith pathname ''/login'' \<or> startsWith pathname ''/register''"
  shows "authorized auth pathname = (if isLoggedIn auth then redirect_home else Allow)"
  using assms by (auto simp: authorized_def authorized_exit_def isOnLogin_def isOnRegister_def)

theorem authorized_prefix_recognition_witness:
  "(startsWith ''/register-admin'' ''/login'' \<or> startsWith ''/register-admin'' ''/register'')
   \<and> authorized None ''/register-admin'' = Allow
   \<and> authorized (Some (Session (Some ''ann''))) ''/register-admin'' = redirect_home
   \<and> authorized None ''/loginfoo'' = Allow
   \<and> authorized (Some (Session (Some ''ann''))) ''/loginfoo'' = redirect_home"
proof -
  have h1: "startsWith ''/register-admin'' ''/login'' \<or> startsWith ''/register-admin'' ''/register''"
    by (simp add: startsWith_def)
  have h2: "startsWith ''/loginfoo'' ''/login'' \<or> startsWith ''/loginfoo'' ''/register''"
    by (simp add: startsWith_def)
  show ?thesis
    using h1
      authorized_prefix_recognition [OF h1, of None]
      authorized_prefix_recognition [OF h1, of "Some (Session (Some ''ann''))"]
      authorized_prefix_recognition [OF h2, of None]
      authorized_prefix_recognition [OF h2, of "Some (Session (Some ''ann''))"]
    by (simp add: isLoggedIn_cases)
qed

text \<open>
  C10. \<open>isOnChat\<close> tests for a leading slash, which every request pathname has; so the
  callback always returns from one of the first three rules, and the two returns after
  them (redirect home when logged in, allow otherwise) are never reached.
\<close>

theorem authorized_tail_unreachable:
  assumes "startsWith pathname ''/''"
  shows "isOnChat pathname
         \<and> authorized_exit auth pathname \<in> {Line23, Line28, Line33, Line34}
         \<and> authorized_exit auth pathname \<noteq> Line38
         \<and> authorized_exit auth pathname \<noteq> Line41"
  using assms by (simp add: authorized_exit_def isOnChat_def)

theorem authorized_tail_unreachable_witness:
  "startsWith ''/api/chat'' ''/''
   \<and> authorized_exit None ''/api/chat'' = Line34
   \<and> authorized_exit (Some (Session (Some ''ann''))) ''/api/chat'' = Line33"
proof -
  have h: "startsWith ''/api/chat'' ''/''"
    by (simp add: startsWith_def)
  have no_page: "\<not> isOnLogin ''/api/chat''" "\<not> isOnRegister ''/api/chat''"
    by (simp_all add: isOnLogin_def isOnRegister_def startsWith_def)
  show ?thesis
    using h no_page
      authorized_tail_unreachable [OF h, of None]
      authorized_tail_unreachable [OF h, of "Some (Session (Some ''ann''))"]
    by (simp add: authorized_exit_def isLoggedIn_cases)
qed

section \<open>Properties of the chat input component\<close>

subsection \<open>What each operation leaves in the state\<close>

lemma emit_fields [simp]:
  "calls (emit e st) = calls st @ [e]"
  "chatId (emit e st) = chatId st"
  "input (emit e st) = input st"
  "isLoading (emit e st) = isLoading st"
  "attachments (emit e st) = attachments st"
  "uploadQueue (emit e st) = uploadQueue st"
  "storage (emit e st) = storage st"
  "textareaRef (emit e st) = textareaRef st"
  "width (emit e st) = width st"
  "scrollHeightOf (emit e st) = scrollHeightOf st"
  "submitForm_built (emit e st) = submitForm_built st"
  "sendButton_submitForm (emit e st) = sendButton_submitForm st"
  by (simp_all add: emit_def)

lemma set_style_height_fields [simp]:
  "calls (set_style_height h st) = calls st @ [SetStyleHeight h]"
  "chatId (set_style_height h st) = chatId st"
  "input (set_style_height h st) = input st"
  "isLoading (set_style_height h st) = isLoading st"
  "attachments (set_style_height h st) = attachments st"
  "uploadQueue (set_style_height h st) = uploadQueue st"
  "storage (set_style_height h st) = storage st"
  "textareaRef (set_style_height h st) = map_option (\<lambda>ta. ta\<lparr>style_height := h\<rparr>) (textareaRef st)"
  "width (set_style_height h st) = width st"
  "scrollHeightOf (set_style_height h st) = scrollHeightOf st"
  "submitForm_built (set_style_height h st) = submitForm_built st"
  "sendButton_submitForm (set_style_height h st) = sendButton_submitForm st"
  by (simp_all add: set_style_height_def)

lemma adjustHeight_textarea:
  "textareaRef (adjustHeight st) =
     map_option (\<lambda>ta. ta\<lparr>style_height := Px (scrollHeightOf st (tvalue ta) Auto + 2)\<rparr>) (textareaRef st)"
  by (cases "textareaRef st") (simp_all add: adjustHeight_def scrollHeight_def Let_def)

lemma adjustHeight_fields [simp]:
  "chatId (adjustHeight st) = chatId st"
  "input (adjustHeight st) = input st"
  "isLoading (adjustHeight st) = isLoading st"
  "attachments (adjustHeight st) = attachments st"
  "uploadQueue (adjustHeight st) = uploadQueue st"
  "storage (adjustHeight st) = storage st"
  "width (adjustHeight st) = width st"
  "scrollHeightOf (adjustHeight st) = scrollHeightOf st"
  "submitForm_built (adjustHeight st) = submitForm_built st"
  "sendButton_submitForm (adjustHeight st) = sendButton_submitForm st"
  by (simp_all add: adjustHeight_def Let_def)

lemma adjustHeight_calls:
  "calls (adjustHeight st) =
     calls st @ (case textareaRef st of None \<Rightarrow> []
                 | Some ta \<Rightarrow> [SetStyleHeight Auto, SetStyleHeight (Px (scrollHeightOf st (tvalue ta) Auto + 2))])"
  by (cases "textareaRef st") (simp_all add: adjustHeight_def scrollHeight_def Let_def)

lemma setAttachments_fields [simp]:
  "calls (setAttachments f st) = calls st @ [SetAttachments (f (attachments st))]"
  "chatId (setAttachments f st) = chatId st"
  "input (setAttachments f st) = input st"
  "isLoading (setAttachments f st) = isLoading st"
  "attachments (setAttachments f st) = f (attachments st)"
  "uploadQueue (setAttachments f st) = uploadQueue st"
  "storage (setAttachments f st) = storage st"
  "textareaRef (setAttachments f st) = textareaRef st"
  "width (setAttachments f st) = width st"
  "scrollHeightOf (setAttachments f st) = scrollHeightOf st"
  "submitForm_built (setAttachments f st) = submitForm_built st"
  "sendButton_submitForm (setAttachments f st) = sendButton_submitForm st"
  by (simp_all add: setAttachments_def)

lemma setInput_fields [simp]:
  "calls (setInput v st) = calls st @ [SetInput v]"
  "chatId (setInput v st) = chatId st"
  "input (setInput v st) = v"
  "isLoading (setInput v st) = isLoading st"
  "attachments (setInput v st) = attachments st"
  "uploadQueue (setInput v st) = uploadQueue st"
  "storage (setInput v st) = storage st"
  "textareaRef (setInput v st) = textareaRef st"
  "width (setInput v st) = width st"
  "scrollHeightOf (setInput v st) = scrollHeightOf st"
  "submitForm_built (setInput v st) = submitForm_built st"
  "sendButton_submitForm (setInput v st) = sendButton_submitForm st"
  by (simp_all add: setInput_def)

lemma setUploadQueue_fields [simp]:
  "calls (setUploadQueue q st) = calls st @ [SetUploadQueue q]"
  "chatId (setUploadQueue q st) = chatId st"
  "input (setUploadQueue q st) = input st"
  "isLoading (setUploadQueue q st) = isLoading st"
  "attachments (setUploadQueue q st) = attachments st"
  "uploadQueue (setUploadQueue q st) = q"
  "storage (setUploadQueue q st) = storage st"
  "textareaRef (setUploadQueue q st) = textareaRef st"
  "width (setUploadQueue q st) = width st"
  "scrollHeightOf (setUploadQueue q st) = scrollHeightOf st"
  "submitForm_built (setUploadQueue q st) = submitForm_built st"
  "sendButton_submitForm (setUploadQueue q st) = sendButton_submitForm st"
  by (simp_all add: setUploadQueue_def)

lemma setLocalStorageInput_fields [simp]:
  "calls (setLocalStorageInput v st) = calls st @ [SetLocalStorageInput v]"
  "chatId (setLocalStorageInput v st) = chatId st"
  "input (setLocalStorageInput v st) = input st"
  "isLoading (setLocalStorageInput v st) = isLoading st"
  "attachments (setLocalStorageInput v st) = attachments st"
  "uploadQueue (setLocalStorageInput v st) = uploadQueue st"
  "storage (setLocalStorageInput v st) = (storage st)(''input'' \<mapsto> v)"
  "textareaRef (setLocalStorageInput v st) = textareaRef st"
  "width (setLocalStorageInput v st) = width st"
  "scrollHeightOf (setLocalStorageInput v st) = scrollHeightOf st"
  "submitForm_built (setLocalStorageInput v st) = submitForm_built st"
  "sendButton_submitForm (setLocalStorageInput v st) = sendButton_submitForm st"
  by (simp_all add: setLocalStorageInput_def)

lemma resetHeight_fields [simp]:
  "chatId (resetHeight st) = chatId st"
  "input (resetHeight st) = input st"
  "isLoading (resetHeight st) = isLoading st"
  "attachments (resetHeight st) = attachments st"
  "uploadQueue (resetHeight st) = uploadQueue st"
  "storage (resetHeight st) = storage st"
  "width (resetHeight st) = width st"
  "scrollHeightOf (resetHeight st) = scrollHeightOf st"
  "submitForm_built (resetHeight st) = submitForm_built st"
  "sendButton_submitForm (resetHeight st) = sendButton_submitForm st"
  by (simp_all add: resetHeight_def)

lemma resetHeight_textarea:
  "textareaRef (resetHeight st) = map_option (\<lambda>ta. ta\<lparr>style_height := Px 98\<rparr>) (textareaRef st)"
  by (cases "textareaRef st") (simp_all add: resetHeight_def)

lemma resetHeight_calls:
  "calls (resetHeight st) =
     calls st @ (if textareaRef st \<noteq> None then [SetStyleHeight Auto, SetStyleHeight (Px 98)] else [])"
  by (simp add: resetHeight_def)

lemma focus_fields [simp]:
  "chatId (focus st) = chatId st"
  "input (focus st) = input st"
  "isLoading (focus st) = isLoading st"
  "attachments (focus st) = attachments st"
  "uploadQueue (focus st) = uploadQueue st"
  "storage (focus st) = storage st"
  "width (focus st) = width st"
  "scrollHeightOf (focus st) = scrollHeightOf st"
  "submitForm_built (focus st) = submitForm_built st"
  "sendButton_submitForm (focus st) = sendButton_submitForm st"
  by (simp_all add: focus_def split: option.splits)

lemma focus_textarea:
  "textareaRef (focus st) = map_option (\<lambda>ta. ta\<lparr>has_focus := True\<rparr>) (textareaRef st)"
  by (simp add: focus_def split: option.splits)

lemma focus_calls:
  "calls (focus st) = calls st @ (if textareaRef st \<noteq> None then [Focus] else [])"
  by (simp add: focus_def split: option.splits)

lemma submitForm_calls:
  "calls (submitForm c st) =
     calls st @ [ReplaceState (''/chat/'' @ closed_chatId c), HandleSubmit (closed_attachments c),
                 SetAttachments [], SetLocalStorageInput []]
     @ (if textareaRef st \<noteq> None then [SetStyleHeight Auto, SetStyleHeight (Px 98)] else [])
     @ (if textareaRef st \<noteq> None \<and> (\<exists>w. closed_width c = Some w \<and> w > 768) then [Focus] else [])"
  by (cases "closed_width c")
     (simp_all add: submitForm_def Let_def resetHeight_calls focus_calls resetHeight_textarea)

lemma submitForm_fields:
  "attachments (submitForm c st) = []"
  "storage (submitForm c st) = (storage st)(''input'' \<mapsto> [])"
  "input (submitForm c st) = input st"
  "uploadQueue (submitForm c st) = uploadQueue st"
  "isLoading (submitForm c st) = isLoading st"
  "width (submitForm c st) = width st"
  "chatId (submitForm c st) = chatId st"
  by (simp_all add: submitForm_def Let_def)

lemma submitForm_textarea:
  "textareaRef (submitForm c st) =
     map_option (\<lambda>ta. ta\<lparr>style_height := Px 98,
                          has_focus := (has_focus ta \<or> (\<exists>w. closed_width c = Some w \<and> w > 768))\<rparr>)
       (textareaRef st)"
  by (cases "closed_width c"; cases "textareaRef st")
     (simp_all add: submitForm_def Let_def resetHeight_textarea focus_textarea)

lemma new_calls_append: "calls after = calls before @ cs \<Longrightarrow> new_calls before after = cs"
  by (simp add: new_calls_def)

subsection \<open>Submission\<close>



lemma new_calls_self [simp]: "new_calls st st = []"
  by (simp add: new_calls_def)

lemma submitForm_new_calls:
  "new_calls st0 (submitForm c (emit e st0)) =
     [e, ReplaceState (''/chat/'' @ closed_chatId c), HandleSubmit (closed_attachments c),
      SetAttachments [], SetLocalStorageInput []]
     @ (if textareaRef st0 \<noteq> None then [SetStyleHeight Auto, SetStyleHeight (Px 98)] else [])
     @ (if textareaRef st0 \<noteq> None \<and> (\<exists>w. closed_width c = Some w \<and> w > 768) then [Focus] else [])"
  by (rule new_calls_append) (simp add: submitForm_calls)

lemma submitForm_submits: "submitted st0 (submitForm c (emit e st0))"
  by (simp add: submitted_def submitForm_new_calls)

lemma enter_while_streaming:
  "isLoading st \<Longrightarrow>
     new_calls st (onKeyDown (KeyEvent ''Enter'' False) st) = [PreventDefault, ToastError please_wait]"
  by (simp add: onKeyDown_def Let_def new_calls_def)

lemma enter_submits_iff:
  "submitted st (onKeyDown (KeyEvent ''Enter'' False) st) \<longleftrightarrow> \<not> isLoading st"
proof (cases "isLoading st")
  case True
  then show ?thesis by (simp add: submitted_def enter_while_streaming)
next
  case False
  then show ?thesis by (simp add: onKeyDown_def Let_def submitForm_submits)
qed

lemma shift_enter_ignored: "onKeyDown (KeyEvent k True) st = st"
  by (simp add: onKeyDown_def)

lemma other_key_ignored: "k \<noteq> ''Enter'' \<Longrightarrow> onKeyDown (KeyEvent k s) st = st"
  by (simp add: onKeyDown_def)

lemma click_send_submits_iff: "submitted st (click_send st) \<longleftrightarrow> \<not> blocked st"
proof (cases "blocked st")
  case True
  then have "click_send st = st"
    by (auto simp: click_send_def blocked_def sendButton_rendered_def sendButton_disabled_def)
  with True show ?thesis by (simp add: submitted_def)
next
  case False
  then have "click_send st = submitForm (sendButton_submitForm st) (emit PreventDefault st)"
    by (auto simp: click_send_def blocked_def sendButton_rendered_def sendButton_disabled_def
          sendButton_onClick_def)
  with False show ?thesis by (simp add: submitForm_submits)
qed

lemma enter_not_blocked_submits:
  "\<not> blocked st \<Longrightarrow> submitted st (onKeyDown (KeyEvent ''Enter'' False) st)"
  by (simp add: enter_submits_iff blocked_def)

text \<open>
  C1. The specification blocks submission exactly when a response is streaming, the draft
  is empty or the upload queue is not empty, for the send button and for the Enter key
  alike. The send button does so (\<open>click_send_submits_iff\<close>); the key handler tests
  \<open>isLoading\<close> only (\<open>enter_submits_iff\<close>). Here a file is still uploading, the send button
  is disabled, and Enter without Shift submits all the same.
\<close>

theorem enter_submits_while_uploading:
  "blocked ((first_render ''c1'' ''hi'' ''hi'' Map.empty None (\<lambda>v h. 0))\<lparr>uploadQueue := [''a.png'']\<rparr>)
   \<and> sendButton_disabled
        ((first_render ''c1'' ''hi'' ''hi'' Map.empty None (\<lambda>v h. 0))\<lparr>uploadQueue := [''a.png'']\<rparr>)
   \<and> new_calls
        ((first_render ''c1'' ''hi'' ''hi'' Map.empty None (\<lambda>v h. 0))\<lparr>uploadQueue := [''a.png'']\<rparr>)
        (onKeyDown (KeyEvent ''Enter'' False)
          ((first_render ''c1'' ''hi'' ''hi'' Map.empty None (\<lambda>v h. 0))\<lparr>uploadQueue := [''a.png'']\<rparr>))
       = [PreventDefault, ReplaceState ''/chat/c1'', HandleSubmit [], SetAttachments [],
          SetLocalStorageInput [], SetStyleHeight Auto, SetStyleHeight (Px 98)]"
  by (simp add: blocked_def sendButton_disabled_def first_render_def onKeyDown_def Let_def
        submitForm_new_calls)

subsection \<open>Textarea sizing\<close>

text \<open>
  C8. \<open>adjustHeight\<close> is idempotent: with the content unchanged, a second call leaves the
  textarea as the first did. The height it sets is the scroll height read after the
  collapse to \<open>auto\<close>, plus 2 pixels, whatever the layout function of the browser is.
\<close>

theorem adjustHeight_idempotent:
  "textareaRef (adjustHeight (adjustHeight st)) = textareaRef (adjustHeight st)
   \<and> map_option style_height (textareaRef (adjustHeight st)) =
       map_option (\<lambda>ta. Px (scrollHeightOf st (tvalue ta) Auto + 2)) (textareaRef st)
   \<and> (adjustHeight (adjustHeight st))\<lparr>calls := c\<rparr> = (adjustHeight st)\<lparr>calls := c\<rparr>"
proof -
  have a: "textareaRef (adjustHeight (adjustHeight st)) = textareaRef (adjustHeight st)"
    by (cases "textareaRef st") (simp_all add: adjustHeight_textarea)
  have b: "map_option style_height (textareaRef (adjustHeight st)) =
       map_option (\<lambda>ta. Px (scrollHeightOf st (tvalue ta) Auto + 2)) (textareaRef st)"
    by (cases "textareaRef st") (simp_all add: adjustHeight_textarea)
  have c: "(adjustHeight (adjustHeight st))\<lparr>calls := c\<rparr> = (adjustHeight st)\<lparr>calls := c\<rparr>"
    using a by (intro state.equality) simp_all
  from a b c show ?thesis by simp
qed

theorem adjustHeight_idempotent_witness:
  "map_option style_height
     (textareaRef (adjustHeight (adjustHeight
        (first_render ''c1'' ''hi'' ''hi'' Map.empty None
           (\<lambda>v h. case h of Px n \<Rightarrow> max n (24 * length v) | _ \<Rightarrow> 24 * length v))))) = Some (Px 50)
   \<and> map_option style_height
     (textareaRef (adjustHeight
        (first_render ''c1'' ''hi'' ''hi'' Map.empty None
           (\<lambda>v h. case h of Px n \<Rightarrow> max n (24 * length v) | _ \<Rightarrow> 24 * length v)))) = Some (Px 50)"
  using adjustHeight_idempotent [of "first_render ''c1'' ''hi'' ''hi'' Map.empty None
           (\<lambda>v h. case h of Px n \<Rightarrow> max n (24 * length v) | _ \<Rightarrow> 24 * length v)"]
  by (simp add: first_render_def)

subsection \<open>Draft persistence\<close>

lemma rerender_fields [simp]:
  "input (rerender before st) = input st"
  "attachments (rerender before st) = attachments st"
  "uploadQueue (rerender before st) = uploadQueue st"
  "isLoading (rerender before st) = isLoading st"
  by (simp_all add: rerender_def Let_def)

lemma rerender_storage:
  "storage (rerender before st) =
     (if input st \<noteq> input before then (storage st)(''input'' \<mapsto> input st) else storage st)"
  by (simp add: rerender_def Let_def)

lemma handleInput_fields [simp]:
  "input (handleInput v st) = v"
  "storage (handleInput v st) = storage st"
  by (simp_all add: handleInput_def Let_def)

lemma onChange_mirrors:
  "input (onChange v st) = v"
  "v \<noteq> input st \<Longrightarrow> storage (onChange v st) ''input'' = Some v"
  by (simp_all add: onChange_def rerender_storage)

lemma mount_effects_input:
  "textareaRef st = Some ta \<Longrightarrow>
     input (mount_effects st) = js_or (js_or (tvalue ta) (localStorageInput st)) []"
  by (simp add: mount_effects_def Let_def adjustHeight_textarea)

lemma mount_effects_storage:
  "storage (mount_effects st) = (storage st)(''input'' \<mapsto> input st)"
  by (simp add: mount_effects_def Let_def split: option.splits)

lemma mount_seed:
  "input (mount (first_render cid input0 domValue store w layout)) =
     (if domValue \<noteq> [] then domValue
      else case store ''input'' of None \<Rightarrow> [] | Some v \<Rightarrow> v)"
  by (simp add: mount_def mount_effects_input [where ta = "\<lparr>tvalue = domValue, style_height = Unset, has_focus = True\<rparr>"]
        first_render_def localStorageInput_def js_or_def split: option.splits)

lemma mount_storage:
  "storage (mount st) ''input'' = Some (input (mount st))"
  by (simp add: mount_def rerender_storage mount_effects_storage)

text \<open>
  C6. The draft round-trips through storage. A change of \<open>input\<close> to \<open>v\<close> is written to the
  slot \<open>input\<close>; a fresh instance whose textarea shows nothing takes \<open>v\<close> back from the slot.
  The seed of a fresh instance is the value the textarea already shows when not empty,
  else the stored value, else the empty string; after mounting, the slot holds the seed.
\<close>

theorem draft_round_trip:
  assumes "v \<noteq> input st"
  shows "storage (onChange v st) ''input'' = Some v
   \<and> storage (rerender st (st\<lparr>input := v\<rparr>)) ''input'' = Some v
   \<and> input (mount (first_render cid input0 [] (storage (onChange v st)) w layout)) = v
   \<and> input (mount (first_render cid input0 domValue store w layout)) =
       (if domValue \<noteq> [] then domValue
        else case store ''input'' of None \<Rightarrow> [] | Some s \<Rightarrow> s)
   \<and> storage (mount (first_render cid input0 domValue store w layout)) ''input'' =
       Some (input (mount (first_render cid input0 domValue store w layout)))"
proof -
  have mirrored: "storage (onChange v st) ''input'' = Some v"
    using assms by (rule onChange_mirrors(2))
  have effect: "storage (rerender st (st\<lparr>input := v\<rparr>)) ''input'' = Some v"
    using assms by (simp add: rerender_storage)
  have restored: "input (mount (first_render cid input0 [] (storage (onChange v st)) w layout)) = v"
    by (simp add: mount_seed mirrored)
  from mirrored effect restored show ?thesis
    by (simp add: mount_seed mount_storage)
qed

theorem draft_round_trip_witness:
  "''hello'' \<noteq> input (mount (first_render ''c1'' [] [] Map.empty None (\<lambda>v h. 24)))
   \<and> storage (onChange ''hello'' (mount (first_render ''c1'' [] [] Map.empty None (\<lambda>v h. 24))))
        ''input'' = Some ''hello''
   \<and> input (mount (first_render ''c2'' [] []
        (storage (onChange ''hello'' (mount (first_render ''c1'' [] [] Map.empty None (\<lambda>v h. 24)))))
        None (\<lambda>v h. 24))) = ''hello''"
proof -
  have h: "''hello'' \<noteq> input (mount (first_render ''c1'' [] [] Map.empty None (\<lambda>v h. 24)))"
    by (simp add: mount_seed)
  show ?thesis
    using h draft_round_trip [OF h, of "''c2''" "[]" None "\<lambda>v h. 24"]
    by simp
qed

subsection \<open>Uploads\<close>

lemma uploadFile_eq:
  "uploadFile fetched =
     (case fetched of
        None \<Rightarrow> (None, [upload_failed])
      | Some r \<Rightarrow>
          (case body_json r of
             None \<Rightarrow> (None, [upload_failed])
           | Some d \<Rightarrow>
               if d = JNull then (None, [upload_failed])
               else if ok r then
                 (Some (Attachment (property d ''url'') (property d ''pathname'')
                          (property d ''contentType'')), [])
               else (None, [property d ''error''])))"
  by (simp add: uploadFile_def uploadFile_try_def split: option.splits)

lemma uploadFile_success_iff:
  "fst (uploadFile fetched) \<noteq> None \<longleftrightarrow>
     (\<exists>r d. fetched = Some r \<and> ok r \<and> body_json r = Some d \<and> d \<noteq> JNull)"
  by (auto simp: uploadFile_eq split: option.splits)


lemma emit_toasts_fields [simp]:
  "calls (foldl (\<lambda>s m. emit (ToastError m) s) st ms) = calls st @ map ToastError ms"
  "attachments (foldl (\<lambda>s m. emit (ToastError m) s) st ms) = attachments st"
  "uploadQueue (foldl (\<lambda>s m. emit (ToastError m) s) st ms) = uploadQueue st"
  "storage (foldl (\<lambda>s m. emit (ToastError m) s) st ms) = storage st"
  "input (foldl (\<lambda>s m. emit (ToastError m) s) st ms) = input st"
  by (induction ms arbitrary: st) simp_all

lemma emit_fetch_fields [simp]:
  "calls (foldl (\<lambda>s f. emit (Fetch u m f) s) st fs) = calls st @ map (Fetch u m) fs"
  "attachments (foldl (\<lambda>s f. emit (Fetch u m f) s) st fs) = attachments st"
  "uploadQueue (foldl (\<lambda>s f. emit (Fetch u m f) s) st fs) = uploadQueue st"
  "storage (foldl (\<lambda>s f. emit (Fetch u m f) s) st fs) = storage st"
  "input (foldl (\<lambda>s f. emit (Fetch u m f) s) st fs) = input st"
  by (induction fs arbitrary: st) simp_all

lemma start_fields:
  "uploadQueue (handleFileChange_start (Some files) st) = map file_name files"
  "attachments (handleFileChange_start tf st) = attachments st"
  "calls (handleFileChange_start (Some files) st) =
     calls st @ SetUploadQueue (map file_name files) # map (Fetch ''/api/files/upload'' ''POST'') files"
  "uploadQueue (handleFileChange_start None st) = []"
  by (simp_all add: handleFileChange_start_def files_of_def Let_def)

lemma complete_upload_simps:
  "fst (complete_upload fetched (slots, st) i) =
     (if i < length fetched then slots[i := Some (fst (uploadFile (fetched ! i)))] else slots)"
  "attachments (snd (complete_upload fetched (slots, st) i)) = attachments st"
  "uploadQueue (snd (complete_upload fetched (slots, st) i)) = uploadQueue st"
  "calls (snd (complete_upload fetched (slots, st) i)) = calls st @ toasts_of fetched i"
  by (simp_all add: complete_upload_def Let_def toasts_of_def)

lemma completions_state:
  "attachments (snd (foldl (complete_upload fetched) (slots, st) order)) = attachments st
   \<and> uploadQueue (snd (foldl (complete_upload fetched) (slots, st) order)) = uploadQueue st
   \<and> calls (snd (foldl (complete_upload fetched) (slots, st) order)) =
       calls st @ concat (map (toasts_of fetched) order)"
proof (induction order arbitrary: slots st)
  case Nil
  show ?case by simp
next
  case (Cons i order)
  obtain slots' st' where step: "complete_upload fetched (slots, st) i = (slots', st')"
    by (cases "complete_upload fetched (slots, st) i")
  have "attachments st' = attachments st" "uploadQueue st' = uploadQueue st"
    "calls st' = calls st @ toasts_of fetched i"
    using complete_upload_simps(2-4) [of fetched slots st i] step by simp_all
  with Cons.IH [of slots' st'] step show ?case by simp
qed

lemma completions_slots:
  assumes "length slots = length fetched"
  shows "length (fst (foldl (complete_upload fetched) (slots, st) order)) = length fetched
   \<and> (\<forall>i < length fetched.
         fst (foldl (complete_upload fetched) (slots, st) order) ! i =
           (if i \<in> set order then Some (fst (uploadFile (fetched ! i))) else slots ! i))"
  using assms
proof (induction order arbitrary: slots st)
  case Nil
  then show ?case by simp
next
  case (Cons j order)
  obtain slots' st' where step: "complete_upload fetched (slots, st) j = (slots', st')"
    by (cases "complete_upload fetched (slots, st) j")
  have slots': "slots' = (if j < length fetched then slots[j := Some (fst (uploadFile (fetched ! j)))] else slots)"
    using complete_upload_simps(1) [of fetched slots st j] step by simp
  then have len: "length slots' = length fetched"
    using Cons.prems by simp
  from Cons.IH [OF len, of st'] step slots' Cons.prems
  show ?case by (auto simp: nth_list_update)
qed

lemma completions_all_slots:
  assumes "set order = {..<length fetched}"
  shows "fst (foldl (complete_upload fetched) (replicate (length fetched) None, st) order) =
           map (\<lambda>r. Some (fst (uploadFile r))) fetched"
proof (rule nth_equalityI)
  show "length (fst (foldl (complete_upload fetched) (replicate (length fetched) None, st) order)) =
          length (map (\<lambda>r. Some (fst (uploadFile r))) fetched)"
    using completions_slots [of "replicate (length fetched) None" fetched st order] by simp
next
  fix i
  assume "i < length (fst (foldl (complete_upload fetched) (replicate (length fetched) None, st) order))"
  then have i: "i < length fetched"
    using completions_slots [of "replicate (length fetched) None" fetched st order] by simp
  then have "i \<in> set order" using assms by simp
  with i show "fst (foldl (complete_upload fetched) (replicate (length fetched) None, st) order) ! i =
          map (\<lambda>r. Some (fst (uploadFile r))) fetched ! i"
    using completions_slots [of "replicate (length fetched) None" fetched st order] by simp
qed

lemma successes_eq:
  "map the (filter (\<lambda>a. a \<noteq> None) (map the (map (\<lambda>r. Some (fst (uploadFile r))) fetched))) =
     uploaded_in_input_order fetched"
  unfolding uploaded_in_input_order_def
  by (induction fetched) (auto split: option.splits)

lemma settle_when_all_done:
  assumes "set order = {..<length fetched}"
  shows "handleFileChange_settle fetched order st =
           setUploadQueue []
             (setAttachments (\<lambda>cur. cur @ uploaded_in_input_order fetched)
                (snd (foldl (complete_upload fetched) (replicate (length fetched) None, st) order)))"
proof -
  let ?done = "foldl (complete_upload fetched) (replicate (length fetched) None, st) order"
  have slots: "fst ?done = map (\<lambda>r. Some (fst (uploadFile r))) fetched"
    by (rule completions_all_slots [OF assms])
  have filled: "list_all (\<lambda>s. s \<noteq> None) (fst ?done)"
    unfolding slots by (simp add: list_all_iff)
  have succ: "map the (filter (\<lambda>a. a \<noteq> None) (map the (fst ?done))) =
                uploaded_in_input_order fetched"
    unfolding slots by (rule successes_eq)
  show ?thesis
    unfolding handleFileChange_settle_def Let_def succ
    using filled by (simp only: if_True)
qed

lemma settle_fields:
  assumes "set order = {..<length fetched}"
  shows "uploadQueue (handleFileChange_settle fetched order st) = []"
    and "attachments (handleFileChange_settle fetched order st) =
           attachments st @ uploaded_in_input_order fetched"
    and "calls (handleFileChange_settle fetched order st) =
           calls st @ concat (map (toasts_of fetched) order)
           @ [SetAttachments (attachments st @ uploaded_in_input_order fetched), SetUploadQueue []]"
  by (simp_all add: settle_when_all_done [OF assms] completions_state)

lemma settle_pending:
  assumes "i < length fetched" "i \<notin> set order"
  shows "uploadQueue (handleFileChange_settle fetched order st) = uploadQueue st"
    and "attachments (handleFileChange_settle fetched order st) = attachments st"
proof -
  let ?done = "foldl (complete_upload fetched) (replicate (length fetched) None, st) order"
  have "fst ?done ! i = None" "length (fst ?done) = length fetched"
    using completions_slots [of "replicate (length fetched) None" fetched st order] assms by simp_all
  then have "\<not> list_all (\<lambda>s. s \<noteq> None) (fst ?done)"
    using assms(1) by (auto simp: list_all_length)
  then show "uploadQueue (handleFileChange_settle fetched order st) = uploadQueue st"
    and "attachments (handleFileChange_settle fetched order st) = attachments st"
    by (simp_all add: handleFileChange_settle_def Let_def completions_state)
qed








lemma single_upload_calls:
  "new_calls st (handleFileChange [f] [fetched] [0] st) =
     [SetUploadQueue [file_name f], Fetch ''/api/files/upload'' ''POST'' f]
     @ map ToastError (snd (uploadFile fetched))
     @ [SetAttachments (attachments st @ uploaded_in_input_order [fetched]), SetUploadQueue []]"
proof -
  have order: "set [0::nat] = {..<length [fetched]}"
    by auto
  show ?thesis
    by (rule new_calls_append)
       (simp add: handleFileChange_def settle_fields [OF order] start_fields toasts_of_def)
qed

text \<open>
  C3. For a list of N selected files, the handler at once sets the queue to the N file
  names. Once every upload has finished, in whatever order, the queue is empty whether or
  not uploads failed, and the attachment list is the list before followed by the successful
  uploads in input order; a failed upload adds nothing and stops nothing.
\<close>

theorem handleFileChange_attachments:
  assumes "length fetched = length files" and "set order = {..<length files}"
  shows "uploadQueue (handleFileChange_start (Some files) st) = map file_name files
    \<and> length (uploadQueue (handleFileChange_start (Some files) st)) = length files
    \<and> uploadQueue (handleFileChange_settle fetched order st') = []
    \<and> attachments (handleFileChange_settle fetched order st') =
        attachments st' @ uploaded_in_input_order fetched
    \<and> uploadQueue (handleFileChange files fetched order st) = []
    \<and> attachments (handleFileChange files fetched order st) =
        attachments st @ uploaded_in_input_order fetched"
proof -
  have order: "set order = {..<length fetched}"
    using assms by simp
  show ?thesis
    by (simp add: handleFileChange_def start_fields settle_fields [OF order])
qed

theorem handleFileChange_attachments_witness:
  "length [Some (Response True (Some (JObj [(''url'', JStr ''u1''), (''pathname'', JStr ''a.png''),
                                            (''contentType'', JStr ''image/png'')]))),
           None,
           Some (Response False (Some (JObj [(''error'', JStr ''File too large'')]))),
           Some (Response True (Some (JObj [(''url'', JStr ''u4''), (''pathname'', JStr ''d.txt''),
                                            (''contentType'', JStr ''text/plain'')])))]
     = length [File ''a.png'' ''x'', File ''b.png'' ''y'', File ''c.png'' ''z'', File ''d.txt'' ''w'']
   \<and> set [3, 1, 0, 2] = {..<length [File ''a.png'' ''x'', File ''b.png'' ''y'', File ''c.png'' ''z'',
                                     File ''d.txt'' ''w'']}
   \<and> attachments
        (handleFileChange
           [File ''a.png'' ''x'', File ''b.png'' ''y'', File ''c.png'' ''z'', File ''d.txt'' ''w'']
           [Some (Response True (Some (JObj [(''url'', JStr ''u1''), (''pathname'', JStr ''a.png''),
                                            (''contentType'', JStr ''image/png'')]))),
            None,
            Some (Response False (Some (JObj [(''error'', JStr ''File too large'')]))),
            Some (Response True (Some (JObj [(''url'', JStr ''u4''), (''pathname'', JStr ''d.txt''),
                                            (''contentType'', JStr ''text/plain'')])))]
           [3, 1, 0, 2]
           (first_render ''c1'' [] [] Map.empty None (\<lambda>v h. 0)))
       = [Attachment (Some (JStr ''u1'')) (Some (JStr ''a.png'')) (Some (JStr ''image/png'')),
          Attachment (Some (JStr ''u4'')) (Some (JStr ''d.txt'')) (Some (JStr ''text/plain''))]"
proof -
  let ?files = "[File ''a.png'' ''x'', File ''b.png'' ''y'', File ''c.png'' ''z'', File ''d.txt'' ''w'']"
  let ?fetched = "[Some (Response True (Some (JObj [(''url'', JStr ''u1''), (''pathname'', JStr ''a.png''),
                                            (''contentType'', JStr ''image/png'')]))),
           None,
           Some (Response False (Some (JObj [(''error'', JStr ''File too large'')]))),
           Some (Response True (Some (JObj [(''url'', JStr ''u4''), (''pathname'', JStr ''d.txt''),
                                            (''contentType'', JStr ''text/plain'')])))]"
  have h1: "length ?fetched = length ?files"
    by simp
  have h2: "set [3, 1, 0, 2] = {..<length ?files}"
    by (auto simp: lessThan_def)
  have up: "uploaded_in_input_order ?fetched =
      [Attachment (Some (JStr ''u1'')) (Some (JStr ''a.png'')) (Some (JStr ''image/png'')),
       Attachment (Some (JStr ''u4'')) (Some (JStr ''d.txt'')) (Some (JStr ''text/plain''))]"
    by (simp add: uploaded_in_input_order_def uploadFile_eq)
  have st: "attachments (first_render ''c1'' [] [] Map.empty None (\<lambda>v h. 0)) = []"
    by (simp add: first_render_def)
  show ?thesis
    using handleFileChange_attachments [OF h1 h2, of "first_render ''c1'' [] [] Map.empty None (\<lambda>v h. 0)"]
      h1 h2 up st
    by simp
qed

text \<open>
  C4 as stated fails: a response with an OK status whose body is not JSON yields no
  attachment, only the fixed notification; and an error response whose JSON body has no
  \<open>error\<close> field is passed on as \<open>toast.error(undefined)\<close>, not as the fixed notification.
\<close>

theorem uploadFile_counterexample:
  "ok (Response True None)
   \<and> uploadFile (Some (Response True None)) = (None, [upload_failed])
   \<and> \<not> ok (Response False (Some (JObj [])))
   \<and> uploadFile (Some (Response False (Some (JObj [])))) = (None, [None])
   \<and> upload_failed \<noteq> None"
  by (simp add: uploadFile_eq upload_failed_def)

text \<open>
  C4, amended. \<open>uploadFile\<close> returns an attachment, built from \<open>url\<close>, \<open>pathname\<close> (as its
  name) and \<open>contentType\<close> of the response, exactly when the status is OK and the body is
  JSON other than \<open>null\<close>. On a status that is not OK with such a body it passes the body's
  \<open>error\<close> field to the error notification and returns nothing. When \<open>fetch\<close> fails, or the
  body is not JSON or is \<open>null\<close>, it shows the fixed failure notification and returns
  nothing. One file causes one request: nothing is retried.
\<close>

theorem uploadFile_outcomes:
  "uploadFile fetched =
     (case fetched of
        None \<Rightarrow> (None, [upload_failed])
      | Some r \<Rightarrow>
          (case body_json r of
             None \<Rightarrow> (None, [upload_failed])
           | Some d \<Rightarrow>
               if d = JNull then (None, [upload_failed])
               else if ok r then
                 (Some (Attachment (property d ''url'') (property d ''pathname'')
                          (property d ''contentType'')), [])
               else (None, [property d ''error''])))
   \<and> (fst (uploadFile fetched) \<noteq> None \<longleftrightarrow>
        (\<exists>r d. fetched = Some r \<and> ok r \<and> body_json r = Some d \<and> d \<noteq> JNull))
   \<and> filter is_Fetch (new_calls st (handleFileChange [f] [fetched] [0] st)) =
        [Fetch ''/api/files/upload'' ''POST'' f]"
proof -
  have once: "filter is_Fetch (new_calls st (handleFileChange [f] [fetched] [0] st)) =
        [Fetch ''/api/files/upload'' ''POST'' f]"
    by (simp add: single_upload_calls filter_map o_def)
  from once show ?thesis
    using uploadFile_eq [of fetched] uploadFile_success_iff [of fetched] by simp
qed

theorem uploadFile_outcomes_witness:
  "uploadFile (Some (Response True (Some (JObj [(''url'', JStr ''https://blob/a.png''),
        (''pathname'', JStr ''a.png''), (''contentType'', JStr ''image/png'')])))) =
     (Some (Attachment (Some (JStr ''https://blob/a.png'')) (Some (JStr ''a.png''))
              (Some (JStr ''image/png''))), [])
   \<and> uploadFile (Some (Response False (Some (JObj [(''error'', JStr ''File too large'')])))) =
       (None, [Some (JStr ''File too large'')])
   \<and> uploadFile None = (None, [upload_failed])
   \<and> uploadFile (Some (Response False None)) = (None, [upload_failed])"
  using
    uploadFile_outcomes [of "Some (Response True (Some (JObj [(''url'', JStr ''https://blob/a.png''),
        (''pathname'', JStr ''a.png''), (''contentType'', JStr ''image/png'')])))"]
    uploadFile_outcomes [of "Some (Response False (Some (JObj [(''error'', JStr ''File too large'')])))"]
    uploadFile_outcomes [of None]
    uploadFile_outcomes [of "Some (Response False None)"]
  by simp

subsection \<open>Rendering and the closures of \<open>submitForm\<close>\<close>

lemma rerender_props [simp]:
  "chatId (rerender before st) = chatId st"
  "width (rerender before st) = width st"
  "scrollHeightOf (rerender before st) = scrollHeightOf st"
  by (simp_all add: rerender_def Let_def)

lemma rerender_textarea:
  "textareaRef (rerender before st) =
     map_option (\<lambda>ta. ta\<lparr>tvalue := input st\<rparr>) (textareaRef st)"
  by (simp add: rerender_def Let_def)

lemma rerender_calls:
  "calls (rerender before st) =
     calls st @ (if input st \<noteq> input before then [SetLocalStorageInput (input st)] else [])"
  by (simp add: rerender_def Let_def)

lemma rerender_built:
  "submitForm_built (rerender before st) = useCallback_submitForm st"
  by (simp add: rerender_def Let_def)

lemma rerender_sendButton:
  "sendButton_submitForm (rerender before st) =
     (if \<not> isLoading st \<and> (isLoading before \<or> \<not> sendButton_propsAreEqual before st)
      then useCallback_submitForm st else sendButton_submitForm st)"
  by (simp add: rerender_def Let_def)

lemma built_is_current:
  "submitForm_built (rerender before st) = useCallback_submitForm (rerender before st)"
  by (simp add: rerender_built useCallback_submitForm_def)

lemma submitForm_from_closure:
  "textareaRef st \<noteq> None \<Longrightarrow>
     new_calls st (submitForm c st) =
       [ReplaceState (''/chat/'' @ closed_chatId c), HandleSubmit (closed_attachments c),
        SetAttachments [], SetLocalStorageInput [], SetStyleHeight Auto, SetStyleHeight (Px 98)]
       @ (if (\<exists>w. closed_width c = Some w \<and> w > 768) then [Focus] else [])"
  by (rule new_calls_append) (simp add: submitForm_calls)

lemma enter_after_render:
  assumes "st = rerender before st0" and "\<not> isLoading st" and "textareaRef st \<noteq> None"
  shows "new_calls st (onKeyDown (KeyEvent ''Enter'' False) st) =
       [PreventDefault, ReplaceState (''/chat/'' @ chatId st), HandleSubmit (attachments st),
        SetAttachments [], SetLocalStorageInput [], SetStyleHeight Auto, SetStyleHeight (Px 98)]
       @ (if (\<exists>w. width st = Some w \<and> w > 768) then [Focus] else [])"
proof -
  have "submitForm_built st = useCallback_submitForm st"
    unfolding assms(1) by (rule built_is_current)
  then show ?thesis
    using assms(2,3)
    by (simp add: onKeyDown_def Let_def submitForm_new_calls useCallback_submitForm_def)
qed

lemma after_event_resize:
  "width (after_event (resize w) st) = w"
  "attachments (after_event (resize w) st) = attachments st"
  "input (after_event (resize w) st) = input st"
  "uploadQueue (after_event (resize w) st) = uploadQueue st"
  "isLoading (after_event (resize w) st) = isLoading st"
  "textareaRef (after_event (resize w) st) = map_option (\<lambda>ta. ta\<lparr>tvalue := input st\<rparr>) (textareaRef st)"
  "sendButton_submitForm (after_event (resize w) st) = sendButton_submitForm st"
  "closed_width (submitForm_built (after_event (resize w) st)) = w"
  by (simp_all add: after_event_def resize_def rerender_textarea rerender_built rerender_sendButton
        sendButton_propsAreEqual_def useCallback_submitForm_def)

lemma mount_effects_props [simp]:
  "chatId (mount_effects st) = chatId st"
  "attachments (mount_effects st) = attachments st"
  "uploadQueue (mount_effects st) = uploadQueue st"
  "isLoading (mount_effects st) = isLoading st"
  "width (mount_effects st) = width st"
  "submitForm_built (mount_effects st) = submitForm_built st"
  "sendButton_submitForm (mount_effects st) = sendButton_submitForm st"
  by (simp_all add: mount_effects_def Let_def split: option.splits)

lemma mount_effects_mounted:
  "textareaRef (mount_effects st) \<noteq> None \<longleftrightarrow> textareaRef st \<noteq> None"
  by (cases "textareaRef st") (simp_all add: mount_effects_def Let_def adjustHeight_textarea)

lemma mount_first_render:
  "chatId (mount (first_render cid input0 domValue store w layout)) = cid"
  "attachments (mount (first_render cid input0 domValue store w layout)) = []"
  "uploadQueue (mount (first_render cid input0 domValue store w layout)) = []"
  "isLoading (mount (first_render cid input0 domValue store w layout)) = False"
  "width (mount (first_render cid input0 domValue store w layout)) = w"
  "textareaRef (mount (first_render cid input0 domValue store w layout)) \<noteq> None"
  "submitForm_built (mount (first_render cid input0 domValue store w layout)) =
     \<lparr>closed_chatId = cid, closed_attachments = [], closed_width = w\<rparr>"
  "sendButton_submitForm (mount (first_render cid input0 domValue store w layout)) =
     \<lparr>closed_chatId = cid, closed_attachments = [], closed_width = w\<rparr>"
proof -
  let ?st = "first_render cid input0 domValue store w layout"
  have fr: "chatId ?st = cid" "attachments ?st = []" "uploadQueue ?st = []" "isLoading ?st = False"
    "width ?st = w" "textareaRef ?st \<noteq> None"
    "submitForm_built ?st = \<lparr>closed_chatId = cid, closed_attachments = [], closed_width = w\<rparr>"
    "sendButton_submitForm ?st = \<lparr>closed_chatId = cid, closed_attachments = [], closed_width = w\<rparr>"
    by (simp_all add: first_render_def)
  have cb: "useCallback_submitForm (mount_effects ?st) =
      \<lparr>closed_chatId = cid, closed_attachments = [], closed_width = w\<rparr>"
    by (simp add: useCallback_submitForm_def fr)
  show "chatId (mount ?st) = cid" "attachments (mount ?st) = []" "uploadQueue (mount ?st) = []"
    "isLoading (mount ?st) = False" "width (mount ?st) = w"
    by (simp_all add: mount_def fr)
  show "textareaRef (mount ?st) \<noteq> None"
    using mount_effects_mounted [of ?st] fr(6) by (simp add: mount_def rerender_textarea)
  show "submitForm_built (mount ?st) = \<lparr>closed_chatId = cid, closed_attachments = [], closed_width = w\<rparr>"
    by (simp add: mount_def rerender_built cb)
  show "sendButton_submitForm (mount ?st) = \<lparr>closed_chatId = cid, closed_attachments = [], closed_width = w\<rparr>"
    by (simp add: mount_def rerender_sendButton cb fr)
qed

lemma click_send_new_calls:
  assumes "\<not> blocked st" and "textareaRef st \<noteq> None"
  shows "new_calls st (click_send st) =
       [PreventDefault, ReplaceState (''/chat/'' @ closed_chatId (sendButton_submitForm st)),
        HandleSubmit (closed_attachments (sendButton_submitForm st)),
        SetAttachments [], SetLocalStorageInput [], SetStyleHeight Auto, SetStyleHeight (Px 98)]
       @ (if (\<exists>w. closed_width (sendButton_submitForm st) = Some w \<and> w > 768) then [Focus] else [])"
  using assms
  by (auto simp: click_send_def blocked_def sendButton_rendered_def sendButton_disabled_def
        sendButton_onClick_def submitForm_new_calls)

lemma foldl_emit:
  "foldl (\<lambda>s x. emit (g x) s) st xs = st\<lparr>calls := calls st @ map g xs\<rparr>"
  by (induction xs arbitrary: st) (simp_all add: emit_def)

lemma start_unfolded:
  "handleFileChange_start (Some files) st =
     st\<lparr>uploadQueue := map file_name files,
        calls := calls st @ SetUploadQueue (map file_name files)
                 # map (Fetch ''/api/files/upload'' ''POST'') files\<rparr>"
  unfolding handleFileChange_start_def files_of_def Let_def option.case foldl_emit
  by (simp add: setUploadQueue_def emit_def)

lemma completions_snd:
  "snd (foldl (complete_upload fetched) (slots, st) order) =
     st\<lparr>calls := calls st @ concat (map (toasts_of fetched) order)\<rparr>"
proof (induction order arbitrary: slots st)
  case Nil
  show ?case by simp
next
  case (Cons i order)
  have step: "complete_upload fetched (slots, st) i =
      (fst (complete_upload fetched (slots, st) i), st\<lparr>calls := calls st @ toasts_of fetched i\<rparr>)"
    unfolding complete_upload_def Let_def toasts_of_def foldl_emit
    by (simp add: prod_eq_iff)
  show ?case
    by (subst foldl_Cons, subst step, subst Cons.IH) simp
qed

lemma settle_unfolded:
  assumes "set order = {..<length fetched}"
  shows "handleFileChange_settle fetched order st =
     st\<lparr>attachments := attachments st @ uploaded_in_input_order fetched,
        uploadQueue := [],
        calls := calls st @ concat (map (toasts_of fetched) order)
                 @ [SetAttachments (attachments st @ uploaded_in_input_order fetched),
                    SetUploadQueue []]\<rparr>"
  by (simp add: settle_when_all_done [OF assms] completions_snd setAttachments_def
        setUploadQueue_def emit_def)

lemma after_start:
  "input (after_event (handleFileChange_start (Some files)) st) = input st"
  "isLoading (after_event (handleFileChange_start (Some files)) st) = isLoading st"
  "chatId (after_event (handleFileChange_start (Some files)) st) = chatId st"
  "width (after_event (handleFileChange_start (Some files)) st) = width st"
  "attachments (after_event (handleFileChange_start (Some files)) st) = attachments st"
  "uploadQueue (after_event (handleFileChange_start (Some files)) st) = map file_name files"
  "textareaRef (after_event (handleFileChange_start (Some files)) st) =
     map_option (\<lambda>ta. ta\<lparr>tvalue := input st\<rparr>) (textareaRef st)"
  "sendButton_submitForm (after_event (handleFileChange_start (Some files)) st) =
     (if \<not> isLoading st \<and> length (uploadQueue st) \<noteq> length files
      then useCallback_submitForm st else sendButton_submitForm st)"
  by (simp_all add: after_event_def start_unfolded rerender_textarea rerender_sendButton
        sendButton_propsAreEqual_def useCallback_submitForm_def)

lemma after_settle:
  assumes "set order = {..<length fetched}"
  shows
  "input (after_event (handleFileChange_settle fetched order) st) = input st"
  "isLoading (after_event (handleFileChange_settle fetched order) st) = isLoading st"
  "chatId (after_event (handleFileChange_settle fetched order) st) = chatId st"
  "width (after_event (handleFileChange_settle fetched order) st) = width st"
  "attachments (after_event (handleFileChange_settle fetched order) st) =
     attachments st @ uploaded_in_input_order fetched"
  "uploadQueue (after_event (handleFileChange_settle fetched order) st) = []"
  "textareaRef (after_event (handleFileChange_settle fetched order) st) =
     map_option (\<lambda>ta. ta\<lparr>tvalue := input st\<rparr>) (textareaRef st)"
  "sendButton_submitForm (after_event (handleFileChange_settle fetched order) st) =
     (if \<not> isLoading st \<and> uploadQueue st \<noteq> []
      then \<lparr>closed_chatId = chatId st,
            closed_attachments = attachments st @ uploaded_in_input_order fetched,
            closed_width = width st\<rparr>
      else sendButton_submitForm st)"
  by (simp_all add: after_event_def settle_unfolded [OF assms] rerender_textarea rerender_sendButton
        sendButton_propsAreEqual_def useCallback_submitForm_def)

text \<open>
  C5. \<open>submitForm\<close> is to send the current attachment list and to focus the textarea exactly
  when the window is wider than 768. Run from the key handler, which every render rebuilds,
  it does (\<open>enter_after_render\<close>). \<open>SendButton\<close> is memoised on \<open>input\<close> and the length of
  \<open>uploadQueue\<close> alone and keeps the \<open>submitForm\<close> of an earlier render. First run: the window
  goes from 600 to 1024 wide, then a click on the button submits without focusing. Second
  run: a second batch of files is selected while the first uploads, the second settles,
  then the first; the list holds both attachments and a click sends only the first to
  settle.
\<close>

theorem sendButton_stale_submitForm:
  "(width (after_event (resize (Some 1024))
            (mount (first_render ''c1'' ''hi'' ''hi'' Map.empty (Some 600) (\<lambda>v h. 0)))) = Some 1024
   \<and> \<not> blocked (after_event (resize (Some 1024))
            (mount (first_render ''c1'' ''hi'' ''hi'' Map.empty (Some 600) (\<lambda>v h. 0))))
   \<and> new_calls
       (after_event (resize (Some 1024))
            (mount (first_render ''c1'' ''hi'' ''hi'' Map.empty (Some 600) (\<lambda>v h. 0))))
       (click_send (after_event (resize (Some 1024))
            (mount (first_render ''c1'' ''hi'' ''hi'' Map.empty (Some 600) (\<lambda>v h. 0)))))
     = [PreventDefault, ReplaceState ''/chat/c1'', HandleSubmit [], SetAttachments [],
        SetLocalStorageInput [], SetStyleHeight Auto, SetStyleHeight (Px 98)])
   \<and> (attachments
     (after_event (handleFileChange_settle [Some (Response True (Some (JObj [(''url'', JStr ''ua'')])))] [0])
       (after_event (handleFileChange_settle [Some (Response True (Some (JObj [(''url'', JStr ''ub'')])))] [0])
         (after_event (handleFileChange_start (Some [File ''b.png'' ''y'']))
           (after_event (handleFileChange_start (Some [File ''a.png'' ''x'']))
             (mount (first_render ''c1'' ''hi'' ''hi'' Map.empty None (\<lambda>v h. 0)))))))
     = [Attachment (Some (JStr ''ub'')) None None, Attachment (Some (JStr ''ua'')) None None]
   \<and> new_calls
     (after_event (handleFileChange_settle [Some (Response True (Some (JObj [(''url'', JStr ''ua'')])))] [0])
       (after_event (handleFileChange_settle [Some (Response True (Some (JObj [(''url'', JStr ''ub'')])))] [0])
         (after_event (handleFileChange_start (Some [File ''b.png'' ''y'']))
           (after_event (handleFileChange_start (Some [File ''a.png'' ''x'']))
             (mount (first_render ''c1'' ''hi'' ''hi'' Map.empty None (\<lambda>v h. 0)))))))
     (click_send
     (after_event (handleFileChange_settle [Some (Response True (Some (JObj [(''url'', JStr ''ua'')])))] [0])
       (after_event (handleFileChange_settle [Some (Response True (Some (JObj [(''url'', JStr ''ub'')])))] [0])
         (after_event (handleFileChange_start (Some [File ''b.png'' ''y'']))
           (after_event (handleFileChange_start (Some [File ''a.png'' ''x'']))
             (mount (first_render ''c1'' ''hi'' ''hi'' Map.empty None (\<lambda>v h. 0))))))))
     = [PreventDefault, ReplaceState ''/chat/c1'',
        HandleSubmit [Attachment (Some (JStr ''ub'')) None None],
        SetAttachments [], SetLocalStorageInput [], SetStyleHeight Auto, SetStyleHeight (Px 98)])"
proof -
  have resized:
    "width (after_event (resize (Some 1024))
            (mount (first_render ''c1'' ''hi'' ''hi'' Map.empty (Some 600) (\<lambda>v h. 0)))) = Some 1024
   \<and> \<not> blocked (after_event (resize (Some 1024))
            (mount (first_render ''c1'' ''hi'' ''hi'' Map.empty (Some 600) (\<lambda>v h. 0))))
   \<and> new_calls
       (after_event (resize (Some 1024))
            (mount (first_render ''c1'' ''hi'' ''hi'' Map.empty (Some 600) (\<lambda>v h. 0))))
       (click_send (after_event (resize (Some 1024))
            (mount (first_render ''c1'' ''hi'' ''hi'' Map.empty (Some 600) (\<lambda>v h. 0)))))
     = [PreventDefault, ReplaceState ''/chat/c1'', HandleSubmit [], SetAttachments [],
        SetLocalStorageInput [], SetStyleHeight Auto, SetStyleHeight (Px 98)]"
  proof -
    let ?s0 = "mount (first_render ''c1'' ''hi'' ''hi'' Map.empty (Some 600) (\<lambda>v h. 0))"
    let ?s1 = "after_event (resize (Some 1024)) ?s0"
    have in0: "input ?s0 = ''hi''"
      by (simp add: mount_seed)
    have nb: "\<not> blocked ?s1"
      by (simp add: blocked_def after_event_resize mount_first_render in0)
    have ta: "textareaRef ?s1 \<noteq> None"
      using mount_first_render(6) [of "''c1''" "''hi''" "''hi''" Map.empty "Some 600" "\<lambda>v h. 0"]
      by (simp add: after_event_resize)
    have sb: "sendButton_submitForm ?s1 =
        \<lparr>closed_chatId = ''c1'', closed_attachments = [], closed_width = Some 600\<rparr>"
      by (simp add: after_event_resize mount_first_render)
    show ?thesis
      using nb click_send_new_calls [OF nb ta]
      by (simp add: after_event_resize mount_first_render)
  qed
  have overlapped:
    "attachments
     (after_event (handleFileChange_settle [Some (Response True (Some (JObj [(''url'', JStr ''ua'')])))] [0])
       (after_event (handleFileChange_settle [Some (Response True (Some (JObj [(''url'', JStr ''ub'')])))] [0])
         (after_event (handleFileChange_start (Some [File ''b.png'' ''y'']))
           (after_event (handleFileChange_start (Some [File ''a.png'' ''x'']))
             (mount (first_render ''c1'' ''hi'' ''hi'' Map.empty None (\<lambda>v h. 0)))))))
     = [Attachment (Some (JStr ''ub'')) None None, Attachment (Some (JStr ''ua'')) None None]
   \<and> new_calls
     (after_event (handleFileChange_settle [Some (Response True (Some (JObj [(''url'', JStr ''ua'')])))] [0])
       (after_event (handleFileChange_settle [Some (Response True (Some (JObj [(''url'', JStr ''ub'')])))] [0])
         (after_event (handleFileChange_start (Some [File ''b.png'' ''y'']))
           (after_event (handleFileChange_start (Some [File ''a.png'' ''x'']))
             (mount (first_render ''c1'' ''hi'' ''hi'' Map.empty None (\<lambda>v h. 0)))))))
     (click_send
     (after_event (handleFileChange_settle [Some (Response True (Some (JObj [(''url'', JStr ''ua'')])))] [0])
       (after_event (handleFileChange_settle [Some (Response True (Some (JObj [(''url'', JStr ''ub'')])))] [0])
         (after_event (handleFileChange_start (Some [File ''b.png'' ''y'']))
           (after_event (handleFileChange_start (Some [File ''a.png'' ''x'']))
             (mount (first_render ''c1'' ''hi'' ''hi'' Map.empty None (\<lambda>v h. 0))))))))
     = [PreventDefault, ReplaceState ''/chat/c1'',
        HandleSubmit [Attachment (Some (JStr ''ub'')) None None],
        SetAttachments [], SetLocalStorageInput [], SetStyleHeight Auto, SetStyleHeight (Px 98)]"
  proof -
    let ?t0 = "mount (first_render ''c1'' ''hi'' ''hi'' Map.empty None (\<lambda>v h. 0))"
    let ?t1 = "after_event (handleFileChange_start (Some [File ''a.png'' ''x''])) ?t0"
    let ?t2 = "after_event (handleFileChange_start (Some [File ''b.png'' ''y''])) ?t1"
    let ?fb = "[Some (Response True (Some (JObj [(''url'', JStr ''ub'')])))]"
    let ?fa = "[Some (Response True (Some (JObj [(''url'', JStr ''ua'')])))]"
    let ?t3 = "after_event (handleFileChange_settle ?fb [0]) ?t2"
    let ?t4 = "after_event (handleFileChange_settle ?fa [0]) ?t3"
    have o: "set [0::nat] = {..<length ?fb}" "set [0::nat] = {..<length ?fa}"
      by auto
    have ups: "uploaded_in_input_order ?fb = [Attachment (Some (JStr ''ub'')) None None]"
      "uploaded_in_input_order ?fa = [Attachment (Some (JStr ''ua'')) None None]"
      by (simp_all add: uploaded_in_input_order_def uploadFile_eq)
    have in0: "input ?t0 = ''hi''"
      by (simp add: mount_seed)
    have ta0: "textareaRef ?t0 \<noteq> None"
      by (rule mount_first_render(6))
    have t3: "attachments ?t3 = [Attachment (Some (JStr ''ub'')) None None]" "uploadQueue ?t3 = []"
      "input ?t3 = ''hi''" "isLoading ?t3 = False" "textareaRef ?t3 \<noteq> None"
      "sendButton_submitForm ?t3 =
         \<lparr>closed_chatId = ''c1'', closed_attachments = [Attachment (Some (JStr ''ub'')) None None],
          closed_width = None\<rparr>"
      using ta0 by (simp_all add: after_settle [OF o(1)] after_start mount_first_render in0 ups)
    have t4: "attachments ?t4 = [Attachment (Some (JStr ''ub'')) None None, Attachment (Some (JStr ''ua'')) None None]"
      "uploadQueue ?t4 = []" "input ?t4 = ''hi''" "isLoading ?t4 = False" "textareaRef ?t4 \<noteq> None"
      "sendButton_submitForm ?t4 =
         \<lparr>closed_chatId = ''c1'', closed_attachments = [Attachment (Some (JStr ''ub'')) None None],
          closed_width = None\<rparr>"
      using t3 by (simp_all add: after_settle [OF o(2)] ups)
    have nb: "\<not> blocked ?t4"
      by (simp add: blocked_def t4)
    show ?thesis
      using click_send_new_calls [OF nb t4(5)] by (simp add: t4)
  qed
  from resized overlapped show ?thesis
    by (rule conjI)
qed

subsection \<open>Queue entries\<close>








end
